theory Spec2Isabelle
  imports Main "HOL-Library.Multiset" "HOL-Library.Option_ord" "HOL-Library.Sublist"
begin

section \<open>Data model (app/models.py)\<close>

text \<open>
  A \<^verbatim>\<open>datetime\<close> is modelled by its position on the time line, counted in
  microseconds (the resolution of Python's \<^verbatim>\<open>datetime\<close>); only equality
  and order of timestamps are used by the service.
\<close>

type_synonym datetime = int

text \<open>
  \<^verbatim>\<open>class DataProduct(SQLModel, table=True)\<close>. A table model is not validated
  when an attribute is assigned, so the Python object can hold \<^verbatim>\<open>None\<close> in
  \<^verbatim>\<open>schema_name\<close>, \<^verbatim>\<open>owner\<close> and \<^verbatim>\<open>creation_date\<close> as well as in
  the two fields declared optional (\<^verbatim>\<open>id\<close>, \<^verbatim>\<open>description\<close>). The field
  \<^verbatim>\<open>id\<close> is called \<open>dp_id\<close> here. Strings are byte lists; the declared
  \<^verbatim>\<open>max_length\<close> bounds restrict the requests a caller can build, and every
  statement below holds for strings of any length.
\<close>

record DataProduct =
  dp_id :: "int option"
  schema_name :: "string option"
  description :: "string option"
  owner :: "string option"
  creation_date :: "datetime option"
  created_at :: datetime
  updated_at :: datetime

text \<open>\<^verbatim>\<open>class DataProductCreate(SQLModel, table=False)\<close>: a validated request.\<close>

record DataProductCreate =
  create_schema_name :: string
  create_description :: "string option"
  create_owner :: string
  create_creation_date :: "datetime option"

text \<open>
  \<^verbatim>\<open>class DataProductUpdate(SQLModel, table=False)\<close>: every field is
  \<^verbatim>\<open>Optional\<close> with default \<^verbatim>\<open>None\<close>. The model remembers which fields the
  caller passed (\<^verbatim>\<open>model_fields_set\<close>), so a field is either unset, or provided
  with a value that may itself be \<^verbatim>\<open>None\<close>.
\<close>

datatype 'a field = Unset | Provided "'a option"

record DataProductUpdate =
  update_schema_name :: "string field"
  update_description :: "string field"
  update_owner :: "string field"
  update_creation_date :: "datetime field"

text \<open>The attribute read \<^verbatim>\<open>updates.schema_name\<close>: an unset field reads as its default.\<close>

fun field_value :: "'a field \<Rightarrow> 'a option" where
  "field_value Unset = None"
| "field_value (Provided v) = v"

section \<open>Failures\<close>

text \<open>
  \<^verbatim>\<open>ValueError(msg)\<close> is what the service raises itself; \<open>IntegrityError\<close> is
  the failure of \<^verbatim>\<open>session.commit()\<close> when the table's constraints reject a row.
\<close>

datatype error = ValueError string | IntegrityError

definition already_exists_message :: "string \<Rightarrow> string" where
  "already_exists_message n =
     ''Data product with schema name '' @ [CHR 0x27] @ n @ [CHR 0x27] @ '' already exists''"

section \<open>The record store\<close>

text \<open>
  Modelled from the spec: the session of \<^verbatim>\<open>app.database.get_session\<close> and the
  database behind it are not among the sources. The table is the list of its rows in
  storage order together with the next primary key to hand out. As the spec's table
  layout says (\<^verbatim>\<open>data_products(id PK, schema_name UNIQUE, description NULL, owner,
  creation_date, created_at, updated_at)\<close>) and as \<^verbatim>\<open>models.py\<close> declares
  (\<^verbatim>\<open>unique=True\<close> on \<^verbatim>\<open>schema_name\<close>; only \<^verbatim>\<open>id\<close> and
  \<^verbatim>\<open>description\<close> are \<^verbatim>\<open>Optional\<close>), a commit is rejected when a
  non-nullable column would hold \<^verbatim>\<open>None\<close> or when another row already holds the
  same \<^verbatim>\<open>schema_name\<close>; a rejected commit leaves the table as it was.
\<close>

record database =
  rows :: "DataProduct list"
  next_id :: int

definition empty_db :: database where
  "empty_db = \<lparr>rows = [], next_id = 1\<rparr>"

definition violates_not_null :: "DataProduct \<Rightarrow> bool" where
  "violates_not_null p =
     (schema_name p = None \<or> owner p = None \<or> creation_date p = None)"

definition violates_unique :: "DataProduct list \<Rightarrow> DataProduct \<Rightarrow> bool" where
  "violates_unique others p = list_ex (\<lambda>r. schema_name r = schema_name p) others"

text \<open>\<^verbatim>\<open>session.get(DataProduct, data_product_id)\<close>\<close>

definition session_get :: "database \<Rightarrow> int \<Rightarrow> DataProduct option" where
  "session_get db i = find (\<lambda>r. dp_id r = Some i) (rows db)"

text \<open>
  \<^verbatim>\<open>session.add(p); session.commit(); session.refresh(p)\<close> for an object that is
  not in the table yet: the store assigns the primary key.
\<close>

definition session_insert :: "database \<Rightarrow> DataProduct \<Rightarrow> database \<times> (error + DataProduct)" where
  "session_insert db p =
     (if violates_not_null p \<or> violates_unique (rows db) p then (db, Inl IntegrityError)
      else let p' = p\<lparr>dp_id := Some (next_id db)\<rparr>
           in (db\<lparr>rows := rows db @ [p'], next_id := next_id db + 1\<rparr>, Inr p'))"

text \<open>
  The same three calls for an object loaded from the table: its row is rewritten, unless
  one of the other rows holds the same \<^verbatim>\<open>schema_name\<close>.
\<close>

definition session_update :: "database \<Rightarrow> DataProduct \<Rightarrow> database \<times> (error + DataProduct)" where
  "session_update db p =
     (if violates_not_null p
         \<or> violates_unique (filter (\<lambda>r. dp_id r \<noteq> dp_id p) (rows db)) p
      then (db, Inl IntegrityError)
      else (db\<lparr>rows := map (\<lambda>r. if dp_id r = dp_id p then p else r) (rows db)\<rparr>, Inr p))"

text \<open>\<^verbatim>\<open>session.delete(p); session.commit()\<close>\<close>

definition session_delete :: "database \<Rightarrow> DataProduct \<Rightarrow> database" where
  "session_delete db p = db\<lparr>rows := filter (\<lambda>r. dp_id r \<noteq> dp_id p) (rows db)\<rparr>"

text \<open>
  \<^verbatim>\<open>order_by(desc(DataProduct.creation_date))\<close>. SQL leaves the order of rows with
  equal keys open; the model fixes one such order.
\<close>

definition order_by_creation_date_desc :: "DataProduct list \<Rightarrow> DataProduct list" where
  "order_by_creation_date_desc rs = rev (sort_key creation_date rs)"

section \<open>The catalog service (app/data_product_service.py)\<close>

definition get_all_data_products :: "database \<Rightarrow> DataProduct list" where
  "get_all_data_products db = order_by_creation_date_desc (rows db)"

definition get_data_product_by_id :: "database \<Rightarrow> int option \<Rightarrow> DataProduct option" where
  "get_data_product_by_id db data_product_id =
     (case data_product_id of
        None \<Rightarrow> None
      | Some i \<Rightarrow> session_get db i)"

text \<open>\<^verbatim>\<open>if not schema_name: return None\<close> answers the empty name before any query.\<close>

definition get_data_product_by_schema_name :: "database \<Rightarrow> string \<Rightarrow> DataProduct option" where
  "get_data_product_by_schema_name db name =
     (if name = [] then None
      else find (\<lambda>r. schema_name r = Some name) (rows db))"

text \<open>
  \<open>create_data_product\<close> reads the clock up to three times, in the order in which
  Python evaluates the keyword arguments: \<open>now1\<close> for a missing
  \<^verbatim>\<open>creation_date\<close>, \<open>now2\<close> for \<^verbatim>\<open>created_at\<close>, \<open>now3\<close> for
  \<^verbatim>\<open>updated_at\<close>. The readings are arguments of the model;
  \<open>new_data_product\<close> is the constructor call \<^verbatim>\<open>DataProduct(...)\<close>.
\<close>

definition new_data_product ::
  "DataProductCreate \<Rightarrow> datetime \<Rightarrow> datetime \<Rightarrow> datetime \<Rightarrow> DataProduct" where
  "new_data_product data_product_data now1 now2 now3 =
     \<lparr>dp_id = None,
      schema_name = Some (create_schema_name data_product_data),
      description = create_description data_product_data,
      owner = Some (create_owner data_product_data),
      creation_date =
        Some (case create_creation_date data_product_data of
                Some d \<Rightarrow> d
              | None \<Rightarrow> now1),
      created_at = now2,
      updated_at = now3\<rparr>"

definition create_data_product ::
  "database \<Rightarrow> DataProductCreate \<Rightarrow> datetime \<Rightarrow> datetime \<Rightarrow> datetime
     \<Rightarrow> database \<times> (error + DataProduct)" where
  "create_data_product db data_product_data now1 now2 now3 =
     (case get_data_product_by_schema_name db (create_schema_name data_product_data) of
        Some existing \<Rightarrow>
          (db, Inl (ValueError (already_exists_message (create_schema_name data_product_data))))
      | None \<Rightarrow> session_insert db (new_data_product data_product_data now1 now2 now3))"

text \<open>
  The uniqueness check of \<open>update_data_product\<close> (lines 67 to 71): it runs only when
  \<^verbatim>\<open>updates.schema_name\<close> is not \<^verbatim>\<open>None\<close> and differs from the stored name.
\<close>

definition check_schema_name ::
  "database \<Rightarrow> DataProduct \<Rightarrow> DataProductUpdate \<Rightarrow> error option" where
  "check_schema_name db db_data_product updates =
     (case field_value (update_schema_name updates) of
        None \<Rightarrow> None
      | Some n \<Rightarrow>
          if Some n \<noteq> schema_name db_data_product then
            (case get_data_product_by_schema_name db n of
               Some existing \<Rightarrow> Some (ValueError (already_exists_message n))
             | None \<Rightarrow> None)
          else None)"

text \<open>
  \<^verbatim>\<open>for field, value in updates.model_dump(exclude_unset=True).items():
  setattr(db_data_product, field, value)\<close>: every field the caller passed is assigned,
  also when the value passed is \<^verbatim>\<open>None\<close>.
\<close>

fun set_field :: "'a field \<Rightarrow> 'a option \<Rightarrow> 'a option" where
  "set_field Unset old = old"
| "set_field (Provided v) old = v"

definition apply_updates :: "DataProduct \<Rightarrow> DataProductUpdate \<Rightarrow> DataProduct" where
  "apply_updates db_data_product updates =
     db_data_product
       \<lparr>schema_name := set_field (update_schema_name updates) (schema_name db_data_product),
        description := set_field (update_description updates) (description db_data_product),
        owner := set_field (update_owner updates) (owner db_data_product),
        creation_date :=
          set_field (update_creation_date updates) (creation_date db_data_product)\<rparr>"

definition update_data_product ::
  "database \<Rightarrow> int option \<Rightarrow> DataProductUpdate \<Rightarrow> datetime
     \<Rightarrow> database \<times> (error + DataProduct option)" where
  "update_data_product db data_product_id updates now =
     (case data_product_id of
        None \<Rightarrow> (db, Inr None)
      | Some i \<Rightarrow>
          (case session_get db i of
             None \<Rightarrow> (db, Inr None)
           | Some db_data_product \<Rightarrow>
               (case check_schema_name db db_data_product updates of
                  Some e \<Rightarrow> (db, Inl e)
                | None \<Rightarrow>
                    (case session_update db
                            ((apply_updates db_data_product updates)\<lparr>updated_at := now\<rparr>) of
                       (db', Inl e) \<Rightarrow> (db', Inl e)
                     | (db', Inr p) \<Rightarrow> (db', Inr (Some p))))))"

definition delete_data_product :: "database \<Rightarrow> int option \<Rightarrow> database \<times> bool" where
  "delete_data_product db data_product_id =
     (case data_product_id of
        None \<Rightarrow> (db, False)
      | Some i \<Rightarrow>
          (case session_get db i of
             None \<Rightarrow> (db, False)
           | Some db_data_product \<Rightarrow> (session_delete db db_data_product, True)))"

definition get_data_products_count :: "database \<Rightarrow> nat" where
  "get_data_products_count db = length (rows db)"

section \<open>Search\<close>

text \<open>
  Modelled from the spec: \<^verbatim>\<open>search_data_products_by_schema_name\<close> is imported by
  \<^verbatim>\<open>tests/test_search_functionality.py\<close> from the service module, and the
  service module among the sources does not define it. The spec's words are: a
  case-insensitive substring match against \<^verbatim>\<open>schema_name\<close>; an empty or
  whitespace-only term matches every record, as \<^verbatim>\<open>list_all\<close> does; results are
  ordered by \<^verbatim>\<open>creation_date\<close> descending; no match gives an empty sequence.
  Letter case is folded on the ASCII letters, and whitespace is ASCII whitespace.
\<close>

definition lower_char :: "char \<Rightarrow> char" where
  "lower_char c =
     (let n = (of_char c :: nat) in if 65 \<le> n \<and> n \<le> 90 then char_of (n + 32) else c)"

definition lower :: "string \<Rightarrow> string" where
  "lower s = map lower_char s"

definition is_space :: "char \<Rightarrow> bool" where
  "is_space c = ((of_char c :: nat) \<in> {9, 10, 11, 12, 13, 32})"

definition blank :: "string \<Rightarrow> bool" where
  "blank s = list_all is_space s"

fun contains :: "string \<Rightarrow> string \<Rightarrow> bool" where
  "contains [] needle = (needle = [])"
| "contains (c # cs) needle = (prefix needle (c # cs) \<or> contains cs needle)"

definition matches :: "string \<Rightarrow> DataProduct \<Rightarrow> bool" where
  "matches search_term r =
     (case schema_name r of
        None \<Rightarrow> False
      | Some n \<Rightarrow> contains (lower n) (lower search_term))"

definition search_data_products_by_schema_name :: "database \<Rightarrow> string \<Rightarrow> DataProduct list" where
  "search_data_products_by_schema_name db search_term =
     (if blank search_term then get_all_data_products db
      else order_by_creation_date_desc (filter (matches search_term) (rows db)))"

section \<open>Reachable stores and their invariant\<close>

text \<open>
  The stores that calls of the three writing operations produce from the empty one,
  whatever the requests, the ids and the clock readings are.
\<close>

inductive reachable :: "database \<Rightarrow> bool" where
  reachable_empty: "reachable empty_db"
| reachable_create:
    "reachable db \<Longrightarrow> create_data_product db r now1 now2 now3 = (db', res) \<Longrightarrow> reachable db'"
| reachable_update:
    "reachable db \<Longrightarrow> update_data_product db i u now = (db', res) \<Longrightarrow> reachable db'"
| reachable_delete:
    "reachable db \<Longrightarrow> delete_data_product db i = (db', b) \<Longrightarrow> reachable db'"

text \<open>
  What the table's constraints and the key sequence maintain: primary keys are present,
  pairwise different and below the next key; the non-nullable columns are filled; no
  \<^verbatim>\<open>schema_name\<close> occurs twice.
\<close>

definition row_ok :: "database \<Rightarrow> DataProduct \<Rightarrow> bool" where
  "row_ok db r =
     ((case dp_id r of None \<Rightarrow> False | Some i \<Rightarrow> i < next_id db) \<and> \<not> violates_not_null r)"

definition db_inv :: "database \<Rightarrow> bool" where
  "db_inv db =
     (list_all (row_ok db) (rows db) \<and> distinct (map dp_id (rows db))
      \<and> distinct (map schema_name (rows db)))"

section \<open>Example data\<close>

text \<open>
  Three records with the names used in \<^verbatim>\<open>tests/test_search_functionality.py\<close>,
  as a store holds them after three creations.
\<close>

definition sales_analytics :: DataProduct where
  "sales_analytics =
     \<lparr>dp_id = Some 1, schema_name = Some ''sales_analytics'',
      description = Some ''Sales data analysis'', owner = Some ''alice@company.com'',
      creation_date = Some 300, created_at = 301, updated_at = 302\<rparr>"

definition marketing_metrics :: DataProduct where
  "marketing_metrics =
     \<lparr>dp_id = Some 2, schema_name = Some ''marketing_metrics'',
      description = None, owner = Some ''bob@company.com'',
      creation_date = Some 100, created_at = 310, updated_at = 310\<rparr>"

definition sales_reports :: DataProduct where
  "sales_reports =
     \<lparr>dp_id = Some 3, schema_name = Some ''SALES_reports'',
      description = Some ''Weekly sales reports'', owner = Some ''charlie@company.com'',
      creation_date = Some 200, created_at = 320, updated_at = 321\<rparr>"

definition example_db :: database where
  "example_db = \<lparr>rows = [sales_analytics, marketing_metrics, sales_reports], next_id = 4\<rparr>"

lemmas example_defs = example_db_def sales_analytics_def marketing_metrics_def sales_reports_def

text \<open>
  The request of \<^verbatim>\<open>test_create_data_product_minimal\<close> and the record it produces in
  an empty store when the three clock readings are 1000, 1001 and 1002.
\<close>

definition minimal_request :: DataProductCreate where
  "minimal_request =
     \<lparr>create_schema_name = ''minimal_schema'', create_description = None,
      create_owner = ''owner@company.com'', create_creation_date = None\<rparr>"

definition minimal_product :: DataProduct where
  "minimal_product =
     \<lparr>dp_id = Some 1, schema_name = Some ''minimal_schema'', description = None,
      owner = Some ''owner@company.com'', creation_date = Some 1000,
      created_at = 1001, updated_at = 1002\<rparr>"

text \<open>A request whose name is the empty string, and the store after it was created.\<close>

definition empty_name_request :: DataProductCreate where
  "empty_name_request =
     \<lparr>create_schema_name = [], create_description = None,
      create_owner = ''owner@company.com'', create_creation_date = Some 5\<rparr>"

definition empty_name_product :: DataProduct where
  "empty_name_product =
     \<lparr>dp_id = Some 1, schema_name = Some [], description = None,
      owner = Some ''owner@company.com'', creation_date = Some 5,
      created_at = 10, updated_at = 10\<rparr>"

definition empty_name_db :: database where
  "empty_name_db = \<lparr>rows = [empty_name_product], next_id = 2\<rparr>"

text \<open>
  Update requests: the partial request of \<^verbatim>\<open>test_update_data_product_partial\<close>, a
  request that repeats the stored name, one that asks for another record's name, and one
  that sets the name explicitly to null.
\<close>

definition description_only_update :: DataProductUpdate where
  "description_only_update =
     \<lparr>update_schema_name = Unset, update_description = Provided (Some ''updated''),
      update_owner = Unset, update_creation_date = Unset\<rparr>"



definition null_name_update :: DataProductUpdate where
  "null_name_update =
     \<lparr>update_schema_name = Provided None,
      update_description = Unset, update_owner = Unset, update_creation_date = Unset\<rparr>"



text \<open>Two requests whose names differ only in letter case.\<close>

definition lower_case_request :: DataProductCreate where
  "lower_case_request =
     \<lparr>create_schema_name = ''orders'', create_description = None,
      create_owner = ''owner@company.com'', create_creation_date = None\<rparr>"

definition upper_case_request :: DataProductCreate where
  "upper_case_request =
     \<lparr>create_schema_name = ''ORDERS'', create_description = None,
      create_owner = ''another@company.com'', create_creation_date = None\<rparr>"

definition duplicate_request :: DataProductCreate where
  "duplicate_request =
     \<lparr>create_schema_name = ''sales_analytics'', create_description = None,
      create_owner = ''another@company.com'', create_creation_date = None\<rparr>"

section \<open>Facts about the store\<close>

lemma find_SomeD: "find P xs = Some x \<Longrightarrow> P x \<and> x \<in> set xs"
  by (induction xs) (auto split: if_splits)

lemma find_unique:
  assumes "x \<in> set xs" "P x" "\<forall>y \<in> set xs. P y \<longrightarrow> y = x"
  shows "find P xs = Some x"
  using assms
proof (induction xs)
  case Nil
  then show ?case by simp
next
  case (Cons a xs)
  show ?case
  proof (cases "P a")
    case True
    with Cons.prems(3) have "a = x" by simp
    with True show ?thesis by simp
  next
    case False
    with Cons.prems(1,2) have "x \<in> set xs" by (cases "x = a") simp_all
    moreover from Cons.prems(3) have "\<forall>y \<in> set xs. P y \<longrightarrow> y = x" by simp
    ultimately have "find P xs = Some x" using Cons.IH Cons.prems(2) by blast
    with False show ?thesis by simp
  qed
qed

lemma session_get_SomeD:
  "session_get db i = Some p \<Longrightarrow> p \<in> set (rows db) \<and> dp_id p = Some i"
  unfolding session_get_def by (drule find_SomeD) simp

lemma session_get_None_iff:
  "session_get db i = None \<longleftrightarrow> (\<forall>r \<in> set (rows db). dp_id r \<noteq> Some i)"
  unfolding session_get_def by (auto simp: find_None_iff)

lemma session_get_member:
  assumes "distinct (map dp_id (rows db))" "p \<in> set (rows db)" "dp_id p = Some i"
  shows "session_get db i = Some p"
proof -
  from assms(1) have inj: "inj_on dp_id (set (rows db))" by (simp add: distinct_map)
  have "\<forall>y \<in> set (rows db). dp_id y = Some i \<longrightarrow> y = p"
  proof (intro ballI impI)
    fix y assume y: "y \<in> set (rows db)" "dp_id y = Some i"
    from y(2) assms(3) have "dp_id y = dp_id p" by simp
    from inj_onD[OF inj this y(1) assms(2)] show "y = p" .
  qed
  from find_unique[of p "rows db" "\<lambda>r. dp_id r = Some i", OF assms(2) assms(3) this]
  show ?thesis unfolding session_get_def .
qed

lemma db_inv_empty: "db_inv empty_db"
  by (simp add: db_inv_def empty_db_def)

lemma db_inv_insert:
  assumes inv: "db_inv db" and ins: "session_insert db p = (db', res)"
  shows "db_inv db'"
proof (cases "violates_not_null p \<or> violates_unique (rows db) p")
  case True
  with ins inv show ?thesis by (simp add: session_insert_def)
next
  case False
  let ?p' = "p\<lparr>dp_id := Some (next_id db)\<rparr>"
  from False ins have db': "db' = db\<lparr>rows := rows db @ [?p'], next_id := next_id db + 1\<rparr>"
    by (auto simp: session_insert_def Let_def)
  from inv have ok: "\<forall>r \<in> set (rows db). row_ok db r"
    and d1: "distinct (map dp_id (rows db))" and d2: "distinct (map schema_name (rows db))"
    by (auto simp: db_inv_def list_all_iff)
  have fresh: "Some (next_id db) \<notin> dp_id ` set (rows db)"
    using ok by (auto simp: row_ok_def split: option.splits)
  have nm: "schema_name p \<notin> schema_name ` set (rows db)"
    using False by (auto simp: violates_unique_def list_ex_iff)
  have ok': "\<forall>r \<in> set (rows db'). row_ok db' r"
    using ok False by (auto simp: db' row_ok_def violates_not_null_def split: option.splits)
  show ?thesis
    using ok' d1 d2 fresh nm by (simp add: db_inv_def list_all_iff db')
qed

lemma db_inv_create:
  "db_inv db \<Longrightarrow> create_data_product db r now1 now2 now3 = (db', res) \<Longrightarrow> db_inv db'"
proof (cases "get_data_product_by_schema_name db (create_schema_name r)")
  case None
  assume "db_inv db" "create_data_product db r now1 now2 now3 = (db', res)"
  with None show ?thesis
    by (simp add: create_data_product_def) (erule (1) db_inv_insert)
next
  case (Some e)
  assume "db_inv db" "create_data_product db r now1 now2 now3 = (db', res)"
  with Some show ?thesis by (auto simp: create_data_product_def)
qed

lemma map_replace_unique:
  assumes "distinct (map f xs)" "x \<in> set xs" "f y = f x"
  shows "\<exists>as bs. xs = as @ x # bs \<and> map (\<lambda>r. if f r = f y then y else r) xs = as @ y # bs
          \<and> filter (\<lambda>r. f r \<noteq> f y) xs = as @ bs"
proof -
  from assms(2) obtain as bs where xs: "xs = as @ x # bs" by (auto dest: split_list)
  with assms(1) have na: "\<forall>r \<in> set as. f r \<noteq> f x" and nb: "\<forall>r \<in> set bs. f r \<noteq> f x"
    by (force simp: image_iff)+
  have "map (\<lambda>r. if f r = f y then y else r) as = as" "map (\<lambda>r. if f r = f y then y else r) bs = bs"
    using na nb assms(3) by (auto simp: map_idI)
  moreover have "filter (\<lambda>r. f r \<noteq> f y) as = as" "filter (\<lambda>r. f r \<noteq> f y) bs = bs"
    using na nb assms(3) by (auto simp: filter_id_conv)
  ultimately show ?thesis using xs assms(3) by auto
qed

lemma db_inv_session_update:
  assumes inv: "db_inv db" and mem: "old \<in> set (rows db)" and id: "dp_id p = dp_id old"
    and upd: "session_update db p = (db', res)"
  shows "db_inv db'"
proof (cases "violates_not_null p \<or> violates_unique (filter (\<lambda>r. dp_id r \<noteq> dp_id p) (rows db)) p")
  case True
  then have "session_update db p = (db, Inl IntegrityError)"
    unfolding session_update_def by (simp only: if_True)
  with upd inv show ?thesis by simp
next
  case False
  then have "session_update db p
      = (db\<lparr>rows := map (\<lambda>r. if dp_id r = dp_id p then p else r) (rows db)\<rparr>, Inr p)"
    unfolding session_update_def by (simp only: if_False)
  with upd have db': "db' = db\<lparr>rows := map (\<lambda>r. if dp_id r = dp_id p then p else r) (rows db)\<rparr>"
    by simp
  from inv have ok: "\<forall>r \<in> set (rows db). row_ok db r"
    and d1: "distinct (map dp_id (rows db))" and d2: "distinct (map schema_name (rows db))"
    by (simp_all add: db_inv_def list_all_iff)
  from map_replace_unique[OF d1 mem id] obtain as bs where
    xs: "rows db = as @ old # bs"
    and mp: "map (\<lambda>r. if dp_id r = dp_id p then p else r) (rows db) = as @ p # bs"
    and fl: "filter (\<lambda>r. dp_id r \<noteq> dp_id p) (rows db) = as @ bs" by blast
  have rows': "rows db' = as @ p # bs" and nid: "next_id db' = next_id db"
    by (simp_all add: db' mp)
  from False have nn: "\<not> violates_not_null p"
    and nu: "\<not> violates_unique (as @ bs) p" by (simp_all add: fl)
  from nu have nm: "schema_name p \<notin> schema_name ` (set as \<union> set bs)"
    by (auto simp: violates_unique_def list_ex_iff)
  from ok mem have "row_ok db old" by blast
  with id nn have okp: "row_ok db' p" by (simp add: row_ok_def nid split: option.splits)
  have okr: "row_ok db' r" if "r \<in> set as \<union> set bs" for r
  proof -
    from that xs have "r \<in> set (rows db)" by auto
    with ok have "row_ok db r" by blast
    then show ?thesis by (simp add: row_ok_def nid split: option.splits)
  qed
  have c1: "list_all (row_ok db') (rows db')"
    unfolding rows' list_all_iff using okp okr by auto
  have c2: "distinct (map dp_id (rows db'))"
    using d1 unfolding rows' xs by (simp add: id)
  have c3: "distinct (map schema_name (rows db'))"
    using d2 nm unfolding rows' xs by auto
  from c1 c2 c3 show ?thesis by (simp add: db_inv_def)
qed

lemma dp_id_apply_updates [simp]: "dp_id (apply_updates p u) = dp_id p"
  by (simp add: apply_updates_def)

lemma update_cases:
  assumes "update_data_product db i u now = (db', res)"
  shows "(db' = db \<and> (res = Inr None \<or> (\<exists>e. res = Inl e)))
       \<or> (\<exists>j old. i = Some j \<and> session_get db j = Some old
            \<and> check_schema_name db old u = None
            \<and> session_update db ((apply_updates old u)\<lparr>updated_at := now\<rparr>)
                = (db', Inr ((apply_updates old u)\<lparr>updated_at := now\<rparr>))
            \<and> res = Inr (Some ((apply_updates old u)\<lparr>updated_at := now\<rparr>)))"
proof (cases i)
  case None
  with assms show ?thesis by (simp add: update_data_product_def)
next
  case (Some j)
  show ?thesis
  proof (cases "session_get db j")
    case None
    with assms Some show ?thesis by (simp add: update_data_product_def)
  next
    case old: (Some old)
    show ?thesis
    proof (cases "check_schema_name db old u")
      case (Some e)
      with assms \<open>i = Some j\<close> old show ?thesis by (auto simp: update_data_product_def)
    next
      case None
      let ?p = "(apply_updates old u)\<lparr>updated_at := now\<rparr>"
      show ?thesis
      proof (cases "violates_not_null ?p
          \<or> violates_unique (filter (\<lambda>r. dp_id r \<noteq> dp_id ?p) (rows db)) ?p")
        case True
        then have "session_update db ?p = (db, Inl IntegrityError)"
          unfolding session_update_def by (simp only: if_True)
        with assms \<open>i = Some j\<close> old None show ?thesis
          by (auto simp: update_data_product_def)
      next
        case False
        then have su: "session_update db ?p
            = (db\<lparr>rows := map (\<lambda>r. if dp_id r = dp_id ?p then ?p else r) (rows db)\<rparr>, Inr ?p)"
          unfolding session_update_def by (simp only: if_False)
        with assms \<open>i = Some j\<close> old None
        have "db' = db\<lparr>rows := map (\<lambda>r. if dp_id r = dp_id ?p then ?p else r) (rows db)\<rparr>"
          and "res = Inr (Some ?p)"
          by (simp_all add: update_data_product_def)
        with su \<open>i = Some j\<close> old None show ?thesis by simp
      qed
    qed
  qed
qed

lemma db_inv_update:
  assumes inv: "db_inv db" and upd: "update_data_product db i u now = (db', res)"
  shows "db_inv db'"
proof -
  from update_cases[OF upd] show ?thesis
  proof
    assume "db' = db \<and> (res = Inr None \<or> (\<exists>e. res = Inl e))"
    with inv show ?thesis by simp
  next
    assume "\<exists>j old. i = Some j \<and> session_get db j = Some old
            \<and> check_schema_name db old u = None
            \<and> session_update db ((apply_updates old u)\<lparr>updated_at := now\<rparr>)
                = (db', Inr ((apply_updates old u)\<lparr>updated_at := now\<rparr>))
            \<and> res = Inr (Some ((apply_updates old u)\<lparr>updated_at := now\<rparr>))"
    then obtain j old where g: "session_get db j = Some old"
      and su: "session_update db ((apply_updates old u)\<lparr>updated_at := now\<rparr>)
                = (db', Inr ((apply_updates old u)\<lparr>updated_at := now\<rparr>))"
      by blast
    from session_get_SomeD[OF g] have mem: "old \<in> set (rows db)" by simp
    show ?thesis
      by (rule db_inv_session_update[OF inv mem _ su]) simp
  qed
qed

lemma db_inv_delete:
  assumes inv: "db_inv db" and del: "delete_data_product db i = (db', b)"
  shows "db_inv db'"
proof -
  have filt: "db_inv (db\<lparr>rows := filter P (rows db)\<rparr>)" for P
    using inv by (auto simp: db_inv_def list_all_iff row_ok_def distinct_map_filter split: option.splits)
  from del have "db' = db \<or> (\<exists>p. db' = session_delete db p)"
    by (auto simp: delete_data_product_def split: option.splits)
  then show ?thesis using inv filt by (auto simp: session_delete_def)
qed

lemma reachable_db_inv: "reachable db \<Longrightarrow> db_inv db"
proof (induction rule: reachable.induct)
  case reachable_empty
  show ?case by (rule db_inv_empty)
next
  case (reachable_create db r now1 now2 now3 db' res)
  then show ?case by (blast intro: db_inv_create)
next
  case (reachable_update db i u now db' res)
  then show ?case by (blast intro: db_inv_update)
next
  case (reachable_delete db i db' b)
  then show ?case by (blast intro: db_inv_delete)
qed


section \<open>Ordering\<close>

lemma order_by_mset: "mset (order_by_creation_date_desc rs) = mset rs"
  by (simp add: order_by_creation_date_desc_def)

lemma order_by_sorted:
  "sorted_wrt (\<lambda>a b. creation_date b \<le> creation_date a) (order_by_creation_date_desc rs)"
proof -
  have "sorted (map creation_date (sort_key creation_date rs))" by (rule sorted_sort_key)
  then have "sorted_wrt (\<lambda>a b. creation_date a \<le> creation_date b) (sort_key creation_date rs)"
    by (simp add: sorted_wrt_map)
  then show ?thesis by (simp add: order_by_creation_date_desc_def sorted_wrt_rev)
qed

lemma order_by_strict:
  assumes "distinct (map creation_date rs)"
  shows "sorted_wrt (\<lambda>a b. creation_date b < creation_date a) (order_by_creation_date_desc rs)"
proof -
  let ?ys = "sort_key creation_date rs"
  have "mset (map creation_date ?ys) = mset (map creation_date rs)" by simp
  then have "distinct (map creation_date ?ys)"
    using assms by (metis mset_eq_imp_distinct_iff)
  moreover have "sorted (map creation_date ?ys)" by (rule sorted_sort_key)
  ultimately have "sorted_wrt (<) (map creation_date ?ys)" by (simp add: strict_sorted_iff)
  then have "sorted_wrt (\<lambda>a b. creation_date a < creation_date b) ?ys"
    by (simp add: sorted_wrt_map)
  then show ?thesis by (simp add: order_by_creation_date_desc_def sorted_wrt_rev)
qed

section \<open>Listing (C8)\<close>

text \<open>
  C8: \<open>get_all_data_products\<close> returns every stored row, each as often as the table
  holds it, ordered by \<open>creation_date\<close> descending; the order is strictly descending
  when the creation dates are pairwise different; an empty store yields the empty list.
\<close>

theorem get_all_data_products_ordered:
  "mset (get_all_data_products db) = mset (rows db)
   \<and> sorted_wrt (\<lambda>a b. creation_date b \<le> creation_date a) (get_all_data_products db)
   \<and> (distinct (map creation_date (rows db)) \<longrightarrow>
        sorted_wrt (\<lambda>a b. creation_date b < creation_date a) (get_all_data_products db))
   \<and> (rows db = [] \<longrightarrow> get_all_data_products db = [])"
  unfolding get_all_data_products_def
  using order_by_mset[of "rows db"] order_by_sorted[of "rows db"] order_by_strict[of "rows db"]
  by (simp add: order_by_creation_date_desc_def)

theorem get_all_data_products_ordered_witness:
  "distinct (map creation_date (rows example_db))
   \<and> sorted_wrt (\<lambda>a b. creation_date b < creation_date a) (get_all_data_products example_db)
   \<and> get_all_data_products example_db = [sales_analytics, sales_reports, marketing_metrics]
   \<and> rows empty_db = [] \<and> get_all_data_products empty_db = []"
proof -
  have d: "distinct (map creation_date (rows example_db))"
    by (simp add: example_defs)
  with get_all_data_products_ordered[of example_db]
  have s: "sorted_wrt (\<lambda>a b. creation_date b < creation_date a)
             (get_all_data_products example_db)"
    by blast
  have v: "get_all_data_products example_db = [sales_analytics, sales_reports, marketing_metrics]"
    by (simp add: get_all_data_products_def order_by_creation_date_desc_def example_defs)
  have e: "rows empty_db = []" by (simp add: empty_db_def)
  with get_all_data_products_ordered[of empty_db]
  have "get_all_data_products empty_db = []" by blast
  with d s v e show ?thesis by blast
qed

section \<open>Deletion (C7)\<close>

lemma get_by_id_after_delete:
  "get_data_product_by_id (fst (delete_data_product db i)) i = None"
proof (cases i)
  case None
  then show ?thesis by (simp add: get_data_product_by_id_def)
next
  case (Some j)
  show ?thesis
  proof (cases "session_get db j")
    case None
    with Some show ?thesis
      by (simp add: delete_data_product_def get_data_product_by_id_def)
  next
    case old: (Some old)
    from session_get_SomeD[OF old] have "dp_id old = Some j" by simp
    then have "session_get (session_delete db old) j = None"
      by (simp add: session_get_None_iff session_delete_def)
    with Some old show ?thesis
      by (simp add: delete_data_product_def get_data_product_by_id_def)
  qed
qed

text \<open>
  C7: \<open>delete_data_product\<close> always returns a boolean, never a failure. The boolean
  is true exactly when a record with that id was stored; afterwards the id resolves to
  absent. When it is true the rows with that id, and only they, are gone from the table;
  when it is false (as for the null id) the store is unchanged.
\<close>

theorem delete_data_product_result:
  "snd (delete_data_product db i) = (get_data_product_by_id db i \<noteq> None)
   \<and> get_data_product_by_id (fst (delete_data_product db i)) i = None
   \<and> (snd (delete_data_product db i) = False \<longrightarrow> fst (delete_data_product db i) = db)
   \<and> (snd (delete_data_product db i) = True \<longrightarrow>
        rows (fst (delete_data_product db i)) = filter (\<lambda>r. dp_id r \<noteq> i) (rows db)
        \<and> length (rows (fst (delete_data_product db i))) < length (rows db))
   \<and> delete_data_product db None = (db, False)"
proof -
  have a: "snd (delete_data_product db i) = (get_data_product_by_id db i \<noteq> None)"
    by (simp add: delete_data_product_def get_data_product_by_id_def split: option.splits)
  have b: "snd (delete_data_product db i) = False \<longrightarrow> fst (delete_data_product db i) = db"
    by (simp add: delete_data_product_def split: option.splits)
  have c: "snd (delete_data_product db i) = True \<longrightarrow>
        rows (fst (delete_data_product db i)) = filter (\<lambda>r. dp_id r \<noteq> i) (rows db)
        \<and> length (rows (fst (delete_data_product db i))) < length (rows db)"
  proof (cases i)
    case None
    then show ?thesis by (simp add: delete_data_product_def)
  next
    case (Some j)
    show ?thesis
    proof (cases "session_get db j")
      case None
      with Some show ?thesis by (simp add: delete_data_product_def)
    next
      case old: (Some old)
      from session_get_SomeD[OF old] have o: "old \<in> set (rows db)" "dp_id old = Some j"
        by simp_all
      then have "length (filter (\<lambda>r. dp_id r \<noteq> Some j) (rows db)) < length (rows db)"
        by (intro length_filter_less[of old]) simp_all
      with Some old o show ?thesis
        by (simp add: delete_data_product_def session_delete_def)
    qed
  qed
  have d: "delete_data_product db None = (db, False)"
    by (simp add: delete_data_product_def)
  from a b c d get_by_id_after_delete show ?thesis by blast
qed

theorem delete_data_product_result_witness:
  "snd (delete_data_product example_db (Some 2)) = True
   \<and> get_data_product_by_id example_db (Some 2) = Some marketing_metrics
   \<and> get_data_product_by_id (fst (delete_data_product example_db (Some 2))) (Some 2) = None
   \<and> rows (fst (delete_data_product example_db (Some 2))) = [sales_analytics, sales_reports]
   \<and> snd (delete_data_product example_db (Some 9)) = False
   \<and> fst (delete_data_product example_db (Some 9)) = example_db"
proof -
  have t: "snd (delete_data_product example_db (Some 2)) = True"
    by (simp add: delete_data_product_def session_get_def example_defs)
  have g: "get_data_product_by_id example_db (Some 2) = Some marketing_metrics"
    by (simp add: get_data_product_by_id_def session_get_def example_defs)
  have f: "snd (delete_data_product example_db (Some 9)) = False"
    by (simp add: delete_data_product_def session_get_def example_defs)
  have fl: "filter (\<lambda>r. dp_id r \<noteq> Some 2) (rows example_db) = [sales_analytics, sales_reports]"
    by (simp add: example_defs)
  from delete_data_product_result[of example_db "Some 2"] t fl
  have "get_data_product_by_id (fst (delete_data_product example_db (Some 2))) (Some 2) = None"
    and "rows (fst (delete_data_product example_db (Some 2))) = [sales_analytics, sales_reports]"
    by simp_all
  moreover from delete_data_product_result[of example_db "Some 9"] f
  have "fst (delete_data_product example_db (Some 9)) = example_db" by blast
  ultimately show ?thesis using t g f by blast
qed

section \<open>Search (C1)\<close>

lemma contains_sublist: "contains hay needle = sublist needle hay"
  by (induction hay) (simp_all add: sublist_Cons_right)

lemma contains_iff: "contains hay needle \<longleftrightarrow> (\<exists>p s. hay = p @ needle @ s)"
  by (simp add: contains_sublist sublist_def)

text \<open>
  C1: for a term that is empty or all whitespace, \<open>search_data_products_by_schema_name\<close>
  returns what \<open>get_all_data_products\<close> returns. For any other term it returns exactly
  the stored records whose \<open>schema_name\<close>, with letter case folded, has the case-folded
  term as a contiguous part. The result is always ordered by \<open>creation_date\<close>
  descending, and it is the empty list, not a failure, when no record matches.
\<close>

theorem search_data_products_by_schema_name_spec:
  "(blank search_term \<longrightarrow>
      search_data_products_by_schema_name db search_term = get_all_data_products db)
   \<and> (\<not> blank search_term \<longrightarrow>
      mset (search_data_products_by_schema_name db search_term)
        = filter_mset
            (\<lambda>r. \<exists>n. schema_name r = Some n
                 \<and> (\<exists>p s. lower n = p @ lower search_term @ s))
            (mset (rows db)))
   \<and> sorted_wrt (\<lambda>a b. creation_date b \<le> creation_date a)
        (search_data_products_by_schema_name db search_term)
   \<and> (\<not> blank search_term \<and> \<not> list_ex (matches search_term) (rows db) \<longrightarrow>
        search_data_products_by_schema_name db search_term = [])"
proof -
  have m: "matches search_term r \<longleftrightarrow>
      (\<exists>n. schema_name r = Some n \<and> (\<exists>p s. lower n = p @ lower search_term @ s))" for r
    by (simp add: matches_def contains_iff split: option.splits)
  have a: "blank search_term \<longrightarrow>
      search_data_products_by_schema_name db search_term = get_all_data_products db"
    by (simp add: search_data_products_by_schema_name_def)
  have b: "\<not> blank search_term \<longrightarrow>
      mset (search_data_products_by_schema_name db search_term)
        = filter_mset
            (\<lambda>r. \<exists>n. schema_name r = Some n
                 \<and> (\<exists>p s. lower n = p @ lower search_term @ s))
            (mset (rows db))"
    using m by (simp add: search_data_products_by_schema_name_def order_by_mset)
  have c: "sorted_wrt (\<lambda>a b. creation_date b \<le> creation_date a)
        (search_data_products_by_schema_name db search_term)"
    by (simp add: search_data_products_by_schema_name_def get_all_data_products_def
        order_by_sorted)
  have d: "\<not> blank search_term \<and> \<not> list_ex (matches search_term) (rows db) \<longrightarrow>
        search_data_products_by_schema_name db search_term = []"
  proof
    assume h: "\<not> blank search_term \<and> \<not> list_ex (matches search_term) (rows db)"
    then have "filter (matches search_term) (rows db) = []"
      by (simp add: list_ex_iff filter_empty_conv)
    with h show "search_data_products_by_schema_name db search_term = []"
      by (simp add: search_data_products_by_schema_name_def order_by_creation_date_desc_def)
  qed
  from a b c d show ?thesis by blast
qed

theorem search_data_products_by_schema_name_spec_witness:
  "blank ''   ''
   \<and> search_data_products_by_schema_name example_db ''   '' = get_all_data_products example_db
   \<and> \<not> blank ''SALES''
   \<and> search_data_products_by_schema_name example_db ''SALES'' = [sales_analytics, sales_reports]
   \<and> \<not> blank ''finance'' \<and> \<not> list_ex (matches ''finance'') (rows example_db)
   \<and> search_data_products_by_schema_name example_db ''finance'' = []"
proof -
  have b1: "blank ''   ''" by code_simp
  have b2: "\<not> blank ''SALES''" by code_simp
  have b3: "\<not> blank ''finance'' \<and> \<not> list_ex (matches ''finance'') (rows example_db)"
    by code_simp
  have v: "search_data_products_by_schema_name example_db ''SALES''
             = [sales_analytics, sales_reports]"
    by code_simp
  from search_data_products_by_schema_name_spec[of "''   ''" example_db] b1
  have "search_data_products_by_schema_name example_db ''   '' = get_all_data_products example_db"
    by blast
  moreover from search_data_products_by_schema_name_spec[of "''finance''" example_db] b3
  have "search_data_products_by_schema_name example_db ''finance'' = []"
    by blast
  ultimately show ?thesis using b1 b2 b3 v by blast
qed

section \<open>Creation (C2, C6, C10)\<close>

lemma get_by_schema_name_None_iff:
  "get_data_product_by_schema_name db n = None
     \<longleftrightarrow> n = [] \<or> \<not> list_ex (\<lambda>x. schema_name x = Some n) (rows db)"
  by (auto simp: get_data_product_by_schema_name_def find_None_iff list_ex_iff)

lemma new_data_product_not_null [simp]:
  "\<not> violates_not_null (new_data_product r now1 now2 now3)"
  by (simp add: violates_not_null_def new_data_product_def)

lemma create_duplicate:
  assumes "create_schema_name r \<noteq> []"
    and "list_ex (\<lambda>x. schema_name x = Some (create_schema_name r)) (rows db)"
  shows "create_data_product db r now1 now2 now3
           = (db, Inl (ValueError (already_exists_message (create_schema_name r))))"
proof -
  from assms have "get_data_product_by_schema_name db (create_schema_name r) \<noteq> None"
    by (simp add: get_by_schema_name_None_iff)
  then show ?thesis by (auto simp: create_data_product_def)
qed

lemma create_fresh:
  assumes "\<not> list_ex (\<lambda>x. schema_name x = Some (create_schema_name r)) (rows db)"
  shows "create_data_product db r now1 now2 now3
           = (db\<lparr>rows := rows db @ [(new_data_product r now1 now2 now3)\<lparr>dp_id := Some (next_id db)\<rparr>],
                 next_id := next_id db + 1\<rparr>,
              Inr ((new_data_product r now1 now2 now3)\<lparr>dp_id := Some (next_id db)\<rparr>))"
proof -
  from assms have g: "get_data_product_by_schema_name db (create_schema_name r) = None"
    by (simp add: get_by_schema_name_None_iff)
  from assms have u: "\<not> violates_unique (rows db) (new_data_product r now1 now2 now3)"
    by (simp add: violates_unique_def new_data_product_def)
  from g u show ?thesis
    by (simp add: create_data_product_def session_insert_def Let_def)
qed

lemma create_Inr_D:
  assumes "create_data_product db r now1 now2 now3 = (db', Inr p)"
  shows "p = (new_data_product r now1 now2 now3)\<lparr>dp_id := Some (next_id db)\<rparr>
         \<and> db' = db\<lparr>rows := rows db @ [p], next_id := next_id db + 1\<rparr>"
proof (cases "get_data_product_by_schema_name db (create_schema_name r)")
  case (Some e)
  with assms show ?thesis by (simp add: create_data_product_def)
next
  case None
  with assms have i: "session_insert db (new_data_product r now1 now2 now3) = (db', Inr p)"
    by (simp add: create_data_product_def)
  then show ?thesis
    by (cases "violates_unique (rows db) (new_data_product r now1 now2 now3)")
       (auto simp: session_insert_def Let_def)
qed

lemma create_Inl_D:
  assumes "create_data_product db r now1 now2 now3 = (db', Inl e)"
  shows "db' = db"
proof (cases "get_data_product_by_schema_name db (create_schema_name r)")
  case (Some e)
  with assms show ?thesis by (auto simp: create_data_product_def)
next
  case None
  with assms have i: "session_insert db (new_data_product r now1 now2 now3) = (db', Inl e)"
    by (simp add: create_data_product_def)
  then show ?thesis
    by (cases "violates_unique (rows db) (new_data_product r now1 now2 now3)")
       (auto simp: session_insert_def Let_def)
qed

text \<open>
  C2, as it holds of the code: when \<open>create_data_product\<close> accepts a request on a store that
  satisfies the invariant, looking up the returned id yields the returned record; it
  carries the request's \<open>schema_name\<close>, \<open>description\<close> and \<open>owner\<close>, the request's
  \<open>creation_date\<close> or, when the request has none, the first clock reading; its id is
  populated; \<open>created_at\<close> is the second clock reading and \<open>updated_at\<close> the third.
  The two stamps are equal exactly when those two readings coincide.
\<close>

theorem create_then_lookup:
  assumes "db_inv db" and "create_data_product db r now1 now2 now3 = (db', Inr p)"
  shows "dp_id p = Some (next_id db)
    \<and> get_data_product_by_id db' (dp_id p) = Some p
    \<and> schema_name p = Some (create_schema_name r)
    \<and> description p = create_description r
    \<and> owner p = Some (create_owner r)
    \<and> creation_date p = Some (case create_creation_date r of Some d \<Rightarrow> d | None \<Rightarrow> now1)
    \<and> created_at p = now2
    \<and> updated_at p = now3"
proof -
  from create_Inr_D[OF assms(2)]
  have p: "p = (new_data_product r now1 now2 now3)\<lparr>dp_id := Some (next_id db)\<rparr>"
    and db': "db' = db\<lparr>rows := rows db @ [p], next_id := next_id db + 1\<rparr>" by simp_all
  from db_inv_create[OF assms] have inv': "db_inv db'" .
  then have d: "distinct (map dp_id (rows db'))" by (simp add: db_inv_def)
  have id: "dp_id p = Some (next_id db)" by (simp add: p)
  have mem: "p \<in> set (rows db')" by (simp add: db')
  from session_get_member[OF d mem id]
  have "get_data_product_by_id db' (dp_id p) = Some p"
    by (simp add: get_data_product_by_id_def id)
  with id show ?thesis by (simp add: p new_data_product_def)
qed

lemma create_minimal:
  "create_data_product empty_db minimal_request 1000 1001 1002
     = (\<lparr>rows = [minimal_product], next_id = 2\<rparr>, Inr minimal_product)"
  by (simp add: create_data_product_def get_data_product_by_schema_name_def session_insert_def
      new_data_product_def violates_not_null_def violates_unique_def Let_def
      empty_db_def minimal_request_def minimal_product_def)

theorem create_then_lookup_witness:
  "db_inv empty_db
   \<and> create_data_product empty_db minimal_request 1000 1001 1002
       = (\<lparr>rows = [minimal_product], next_id = 2\<rparr>, Inr minimal_product)
   \<and> get_data_product_by_id \<lparr>rows = [minimal_product], next_id = 2\<rparr> (dp_id minimal_product)
       = Some minimal_product
   \<and> schema_name minimal_product = Some (create_schema_name minimal_request)
   \<and> creation_date minimal_product = Some 1000"
proof -
  note c = create_minimal
  from create_then_lookup[OF db_inv_empty c]
  have "get_data_product_by_id \<lparr>rows = [minimal_product], next_id = 2\<rparr> (dp_id minimal_product)
          = Some minimal_product"
    and "schema_name minimal_product = Some (create_schema_name minimal_request)"
    and "creation_date minimal_product
           = Some (case create_creation_date minimal_request of Some d \<Rightarrow> d | None \<Rightarrow> 1000)"
    by blast+
  then show ?thesis using db_inv_empty c by (simp add: minimal_request_def)
qed

theorem create_timestamps_counterexample:
  "create_data_product empty_db minimal_request 1000 1001 1002
     = (\<lparr>rows = [minimal_product], next_id = 2\<rparr>, Inr minimal_product)
   \<and> get_data_product_by_id \<lparr>rows = [minimal_product], next_id = 2\<rparr> (Some 1)
       = Some minimal_product
   \<and> created_at minimal_product \<noteq> updated_at minimal_product"
  using create_minimal
  by (simp add: get_data_product_by_id_def session_get_def minimal_product_def)

text \<open>
  C6, as it holds of the code: creating a record whose non-empty \<open>schema_name\<close> is already stored
  with the same spelling fails with the \<open>ValueError\<close> "already exists" and leaves the store
  unchanged; creating two records whose names differ, as names that differ only in letter
  case do, and that are both not stored yet, succeeds twice.
\<close>

theorem create_duplicate_or_distinct:
  "(create_schema_name r \<noteq> []
      \<and> list_ex (\<lambda>x. schema_name x = Some (create_schema_name r)) (rows db)
    \<longrightarrow> create_data_product db r now1 now2 now3
          = (db, Inl (ValueError (already_exists_message (create_schema_name r)))))
   \<and> (create_schema_name r1 \<noteq> create_schema_name r2
      \<and> \<not> list_ex (\<lambda>x. schema_name x = Some (create_schema_name r1)) (rows db)
      \<and> \<not> list_ex (\<lambda>x. schema_name x = Some (create_schema_name r2)) (rows db)
    \<longrightarrow> (\<exists>db1 p1 db2 p2.
          create_data_product db r1 a1 a2 a3 = (db1, Inr p1)
          \<and> create_data_product db1 r2 b1 b2 b3 = (db2, Inr p2)
          \<and> schema_name p1 = Some (create_schema_name r1)
          \<and> schema_name p2 = Some (create_schema_name r2)
          \<and> rows db2 = rows db @ [p1, p2]))"
proof (intro conjI impI)
  assume "create_schema_name r \<noteq> []
      \<and> list_ex (\<lambda>x. schema_name x = Some (create_schema_name r)) (rows db)"
  then show "create_data_product db r now1 now2 now3
          = (db, Inl (ValueError (already_exists_message (create_schema_name r))))"
    by (simp add: create_duplicate)
next
  assume h: "create_schema_name r1 \<noteq> create_schema_name r2
      \<and> \<not> list_ex (\<lambda>x. schema_name x = Some (create_schema_name r1)) (rows db)
      \<and> \<not> list_ex (\<lambda>x. schema_name x = Some (create_schema_name r2)) (rows db)"
  let ?p1 = "(new_data_product r1 a1 a2 a3)\<lparr>dp_id := Some (next_id db)\<rparr>"
  let ?db1 = "db\<lparr>rows := rows db @ [?p1], next_id := next_id db + 1\<rparr>"
  let ?p2 = "(new_data_product r2 b1 b2 b3)\<lparr>dp_id := Some (next_id ?db1)\<rparr>"
  let ?db2 = "?db1\<lparr>rows := rows ?db1 @ [?p2], next_id := next_id ?db1 + 1\<rparr>"
  from h have c1: "create_data_product db r1 a1 a2 a3 = (?db1, Inr ?p1)"
    by (simp add: create_fresh)
  from h have "\<not> list_ex (\<lambda>x. schema_name x = Some (create_schema_name r2)) (rows ?db1)"
    by (simp add: new_data_product_def)
  then have c2: "create_data_product ?db1 r2 b1 b2 b3 = (?db2, Inr ?p2)"
    by (rule create_fresh)
  have "schema_name ?p1 = Some (create_schema_name r1)"
    "schema_name ?p2 = Some (create_schema_name r2)" "rows ?db2 = rows db @ [?p1, ?p2]"
    by (simp_all add: new_data_product_def)
  with c1 c2 show "\<exists>db1 p1 db2 p2.
          create_data_product db r1 a1 a2 a3 = (db1, Inr p1)
          \<and> create_data_product db1 r2 b1 b2 b3 = (db2, Inr p2)
          \<and> schema_name p1 = Some (create_schema_name r1)
          \<and> schema_name p2 = Some (create_schema_name r2)
          \<and> rows db2 = rows db @ [p1, p2]"
    by blast
qed

theorem create_duplicate_or_distinct_witness:
  "create_schema_name duplicate_request \<noteq> []
   \<and> list_ex (\<lambda>x. schema_name x = Some (create_schema_name duplicate_request)) (rows example_db)
   \<and> create_data_product example_db duplicate_request 1 2 3
       = (example_db, Inl (ValueError (already_exists_message ''sales_analytics'')))
   \<and> create_schema_name lower_case_request \<noteq> create_schema_name upper_case_request
   \<and> lower (create_schema_name lower_case_request) = lower (create_schema_name upper_case_request)
   \<and> \<not> list_ex (\<lambda>x. schema_name x = Some (create_schema_name lower_case_request)) (rows example_db)
   \<and> \<not> list_ex (\<lambda>x. schema_name x = Some (create_schema_name upper_case_request)) (rows example_db)
   \<and> (\<exists>db1 p1 db2 p2.
          create_data_product example_db lower_case_request 1 2 3 = (db1, Inr p1)
          \<and> create_data_product db1 upper_case_request 4 5 6 = (db2, Inr p2)
          \<and> schema_name p1 = Some ''orders''
          \<and> schema_name p2 = Some ''ORDERS''
          \<and> rows db2 = rows example_db @ [p1, p2])"
proof -
  have d: "create_schema_name duplicate_request \<noteq> []
      \<and> list_ex (\<lambda>x. schema_name x = Some (create_schema_name duplicate_request)) (rows example_db)"
    by (simp add: duplicate_request_def example_defs)
  have n: "create_schema_name lower_case_request \<noteq> create_schema_name upper_case_request
      \<and> \<not> list_ex (\<lambda>x. schema_name x = Some (create_schema_name lower_case_request)) (rows example_db)
      \<and> \<not> list_ex (\<lambda>x. schema_name x = Some (create_schema_name upper_case_request)) (rows example_db)"
    by (simp add: lower_case_request_def upper_case_request_def example_defs)
  have l: "lower (create_schema_name lower_case_request)
             = lower (create_schema_name upper_case_request)"
    by code_simp
  note t = create_duplicate_or_distinct[of duplicate_request example_db 1 2 3
      lower_case_request upper_case_request 1 2 3 4 5 6]
  from t d have e: "create_data_product example_db duplicate_request 1 2 3
       = (example_db, Inl (ValueError (already_exists_message ''sales_analytics'')))"
    by (simp add: duplicate_request_def)
  from t n have "\<exists>db1 p1 db2 p2.
          create_data_product example_db lower_case_request 1 2 3 = (db1, Inr p1)
          \<and> create_data_product db1 upper_case_request 4 5 6 = (db2, Inr p2)
          \<and> schema_name p1 = Some ''orders''
          \<and> schema_name p2 = Some ''ORDERS''
          \<and> rows db2 = rows example_db @ [p1, p2]"
    by (simp add: lower_case_request_def upper_case_request_def)
  with d n l e show ?thesis by blast
qed

lemma create_empty_name_first:
  "create_data_product empty_db empty_name_request 10 10 10
     = (empty_name_db, Inr empty_name_product)"
  by (simp add: create_data_product_def get_data_product_by_schema_name_def session_insert_def
      new_data_product_def violates_not_null_def violates_unique_def Let_def
      empty_db_def empty_name_request_def empty_name_product_def empty_name_db_def)

theorem create_empty_name_twice_counterexample:
  "create_data_product empty_db empty_name_request 10 10 10
     = (empty_name_db, Inr empty_name_product)
   \<and> list_ex (\<lambda>x. schema_name x = Some (create_schema_name empty_name_request))
        (rows empty_name_db)
   \<and> create_data_product empty_name_db empty_name_request 20 20 20
       = (empty_name_db, Inl IntegrityError)
   \<and> IntegrityError \<noteq> ValueError (already_exists_message (create_schema_name empty_name_request))"
  using create_empty_name_first
  by (simp add: create_data_product_def get_data_product_by_schema_name_def session_insert_def
      new_data_product_def violates_not_null_def violates_unique_def Let_def
      empty_name_request_def empty_name_product_def empty_name_db_def)



section \<open>Update (C4, C5, C9)\<close>

lemmas update_eval_defs =
  update_data_product_def session_get_def check_schema_name_def apply_updates_def
  session_update_def violates_not_null_def violates_unique_def
  get_data_product_by_schema_name_def get_data_product_by_id_def










lemma update_found:
  assumes "session_get db i = Some old"
  shows "update_data_product db (Some i) u now =
     (case check_schema_name db old u of
        Some e \<Rightarrow> (db, Inl e)
      | None \<Rightarrow>
          (case session_update db ((apply_updates old u)\<lparr>updated_at := now\<rparr>) of
             (db', Inl e) \<Rightarrow> (db', Inl e)
           | (db', Inr p) \<Rightarrow> (db', Inr (Some p))))"
  using assms by (simp add: update_data_product_def)









lemma null_schema_name_rejected:
  assumes "update_schema_name u = Provided None" and "session_get db i = Some old"
  shows "update_data_product db (Some i) u now = (db, Inl IntegrityError)"
proof -
  from assms(1) have c: "check_schema_name db old u = None"
    by (simp add: check_schema_name_def)
  from assms(1) have "violates_not_null ((apply_updates old u)\<lparr>updated_at := now\<rparr>)"
    by (simp add: violates_not_null_def apply_updates_def)
  then have "session_update db ((apply_updates old u)\<lparr>updated_at := now\<rparr>)
               = (db, Inl IntegrityError)"
    by (simp add: session_update_def)
  with c show ?thesis by (simp add: update_found[OF assms(2)])
qed

text \<open>
  C9, as it holds of the code: when the request sets \<open>schema_name\<close> explicitly to null, the uniqueness
  check is skipped, the merge assigns null to the \<open>schema_name\<close> of the loaded record
  (an unset field would have kept the name), and that record is what is committed; the
  commit is rejected because \<open>schema_name\<close> is a non-nullable column, so the call fails
  with the storage failure and the stored row keeps its name.
\<close>

theorem update_null_schema_name:
  "(update_schema_name u = Provided None \<longrightarrow>
      check_schema_name db old u = None
      \<and> schema_name (apply_updates old u) = None)
   \<and> (update_schema_name u = Provided None \<and> session_get db i = Some old \<longrightarrow>
      update_data_product db (Some i) u now
        = (case session_update db ((apply_updates old u)\<lparr>updated_at := now\<rparr>) of
             (db', Inl e) \<Rightarrow> (db', Inl e)
           | (db', Inr p) \<Rightarrow> (db', Inr (Some p)))
      \<and> update_data_product db (Some i) u now = (db, Inl IntegrityError))
   \<and> (update_schema_name u = Unset \<longrightarrow>
      schema_name (apply_updates old u) = schema_name old)"
proof (intro conjI impI)
  assume n: "update_schema_name u = Provided None"
  then show "check_schema_name db old u = None"
    by (simp add: check_schema_name_def)
  from n show "schema_name (apply_updates old u) = None"
    by (simp add: apply_updates_def)
next
  assume h: "update_schema_name u = Provided None \<and> session_get db i = Some old"
  then have "check_schema_name db old u = None" by (simp add: check_schema_name_def)
  with h show "update_data_product db (Some i) u now
        = (case session_update db ((apply_updates old u)\<lparr>updated_at := now\<rparr>) of
             (db', Inl e) \<Rightarrow> (db', Inl e)
           | (db', Inr p) \<Rightarrow> (db', Inr (Some p)))"
    by (simp add: update_found)
next
  assume "update_schema_name u = Provided None \<and> session_get db i = Some old"
  then show "update_data_product db (Some i) u now = (db, Inl IntegrityError)"
    by (simp add: null_schema_name_rejected)
next
  assume "update_schema_name u = Unset"
  then show "schema_name (apply_updates old u) = schema_name old"
    by (simp add: apply_updates_def)
qed

theorem update_null_schema_name_witness:
  "update_schema_name null_name_update = Provided None
   \<and> session_get example_db 1 = Some sales_analytics
   \<and> schema_name sales_analytics = Some ''sales_analytics''
   \<and> check_schema_name example_db sales_analytics null_name_update = None
   \<and> schema_name (apply_updates sales_analytics null_name_update) = None
   \<and> update_data_product example_db (Some 1) null_name_update 400
       = (example_db, Inl IntegrityError)
   \<and> update_schema_name description_only_update = Unset
   \<and> schema_name (apply_updates sales_analytics description_only_update)
       = Some ''sales_analytics''"
proof -
  have n: "update_schema_name null_name_update = Provided None"
    by (simp add: null_name_update_def)
  have g: "session_get example_db 1 = Some sales_analytics"
    by (simp add: session_get_def example_defs)
  have s: "schema_name sales_analytics = Some ''sales_analytics''"
    by (simp add: sales_analytics_def)
  have d: "update_schema_name description_only_update = Unset"
    by (simp add: description_only_update_def)
  note t = update_null_schema_name[of null_name_update example_db sales_analytics 1 400]
  from t n have a: "check_schema_name example_db sales_analytics null_name_update = None"
    "schema_name (apply_updates sales_analytics null_name_update) = None"
    by blast+
  from t n g have b: "update_data_product example_db (Some 1) null_name_update 400
       = (example_db, Inl IntegrityError)" by blast
  from update_null_schema_name[of description_only_update example_db sales_analytics] d s
  have c: "schema_name (apply_updates sales_analytics description_only_update)
       = Some ''sales_analytics''" by simp
  from n g s a b c d show ?thesis by blast
qed

theorem update_null_schema_name_counterexample:
  "update_schema_name null_name_update = Provided None
   \<and> get_data_product_by_id example_db (Some 1) = Some sales_analytics
   \<and> update_data_product example_db (Some 1) null_name_update 400
       = (example_db, Inl IntegrityError)
   \<and> schema_name sales_analytics \<noteq> None"
  by (simp add: update_eval_defs null_name_update_def example_defs)

section \<open>Uniqueness of names (C3)\<close>

lemma name_taken_create_rejected:
  assumes "list_ex (\<lambda>x. schema_name x = Some (create_schema_name r)) (rows db)"
  shows "\<exists>e. create_data_product db r now1 now2 now3 = (db, Inl e)"
proof (cases "get_data_product_by_schema_name db (create_schema_name r)")
  case (Some x)
  then show ?thesis by (simp add: create_data_product_def)
next
  case None
  from assms have "violates_unique (rows db) (new_data_product r now1 now2 now3)"
    by (simp add: violates_unique_def new_data_product_def)
  with None show ?thesis by (simp add: create_data_product_def session_insert_def)
qed

lemma name_taken_update_rejected:
  assumes inv: "db_inv db" and g: "session_get db i = Some old"
    and n: "update_schema_name u = Provided (Some n)"
    and d: "schema_name old \<noteq> Some n"
    and t: "list_ex (\<lambda>x. schema_name x = Some n) (rows db)"
  shows "\<exists>e. update_data_product db (Some i) u now = (db, Inl e)"
proof (cases "check_schema_name db old u")
  case (Some e)
  then show ?thesis by (simp add: update_found[OF g])
next
  case None
  let ?p = "(apply_updates old u)\<lparr>updated_at := now\<rparr>"
  from session_get_SomeD[OF g] have mem: "old \<in> set (rows db)" and id: "dp_id old = Some i"
    by simp_all
  from inv have inj: "inj_on dp_id (set (rows db))" by (simp add: db_inv_def distinct_map)
  from t obtain x where x: "x \<in> set (rows db)" "schema_name x = Some n"
    by (auto simp: list_ex_iff)
  have "dp_id x \<noteq> dp_id old"
  proof
    assume "dp_id x = dp_id old"
    from inj_onD[OF inj this x(1) mem] x(2) d show False by simp
  qed
  moreover have "schema_name ?p = Some n" by (simp add: apply_updates_def n)
  ultimately have "violates_unique (filter (\<lambda>r. dp_id r \<noteq> dp_id ?p) (rows db)) ?p"
    using x by (auto simp: violates_unique_def list_ex_iff)
  then have "session_update db ?p = (db, Inl IntegrityError)"
    by (simp add: session_update_def)
  with None show ?thesis by (simp add: update_found[OF g])
qed

lemma failed_write_unchanged:
  "create_data_product db r now1 now2 now3 = (db', Inl e) \<Longrightarrow> db' = db"
  "update_data_product db i u now = (db'', Inl e) \<Longrightarrow> db'' = db"
proof -
  show "create_data_product db r now1 now2 now3 = (db', Inl e) \<Longrightarrow> db' = db"
    by (rule create_Inl_D)
  assume "update_data_product db i u now = (db'', Inl e)"
  from update_cases[OF this] show "db'' = db" by auto
qed

text \<open>
  C3: in every store reachable from the empty one by calls of create, update and delete,
  no two records have the same \<open>schema_name\<close>. A creation whose name is already stored,
  and an update of a record to a name that another record holds, is answered with a
  failure and leaves the store unchanged, as every failed creation and update does.
\<close>

theorem schema_name_unique_invariant:
  assumes "reachable db"
  shows "distinct (map schema_name (rows db))
    \<and> (list_ex (\<lambda>x. schema_name x = Some (create_schema_name r)) (rows db) \<longrightarrow>
         (\<exists>e. create_data_product db r now1 now2 now3 = (db, Inl e)))
    \<and> (session_get db i = Some old \<and> update_schema_name u = Provided (Some n)
         \<and> schema_name old \<noteq> Some n
         \<and> list_ex (\<lambda>x. schema_name x = Some n) (rows db) \<longrightarrow>
         (\<exists>e. update_data_product db (Some i) u now = (db, Inl e)))
    \<and> (create_data_product db r now1 now2 now3 = (db', Inl e1) \<longrightarrow> db' = db)
    \<and> (update_data_product db j u now = (db'', Inl e2) \<longrightarrow> db'' = db)"
proof -
  from reachable_db_inv[OF assms] have inv: "db_inv db" .
  then have "distinct (map schema_name (rows db))" by (simp add: db_inv_def)
  moreover have "list_ex (\<lambda>x. schema_name x = Some (create_schema_name r)) (rows db) \<longrightarrow>
         (\<exists>e. create_data_product db r now1 now2 now3 = (db, Inl e))"
    by (simp add: name_taken_create_rejected)
  moreover have "session_get db i = Some old \<and> update_schema_name u = Provided (Some n)
         \<and> schema_name old \<noteq> Some n
         \<and> list_ex (\<lambda>x. schema_name x = Some n) (rows db) \<longrightarrow>
         (\<exists>e. update_data_product db (Some i) u now = (db, Inl e))"
    using inv by (simp add: name_taken_update_rejected)
  moreover have "create_data_product db r now1 now2 now3 = (db', Inl e1) \<longrightarrow> db' = db"
    by (simp add: failed_write_unchanged)
  moreover have "update_data_product db j u now = (db'', Inl e2) \<longrightarrow> db'' = db"
    by (simp add: failed_write_unchanged)
  ultimately show ?thesis by blast
qed

lemma reachable_empty_name_db: "reachable empty_name_db"
  by (rule reachable_create[OF reachable_empty create_empty_name_first])

theorem schema_name_unique_invariant_witness:
  "reachable empty_name_db
   \<and> distinct (map schema_name (rows empty_name_db))
   \<and> list_ex (\<lambda>x. schema_name x = Some (create_schema_name empty_name_request))
        (rows empty_name_db)
   \<and> (\<exists>e. create_data_product empty_name_db empty_name_request 20 20 20
              = (empty_name_db, Inl e))
   \<and> create_data_product empty_name_db empty_name_request 20 20 20
       = (empty_name_db, Inl IntegrityError)"
proof -
  note r = reachable_empty_name_db
  have l: "list_ex (\<lambda>x. schema_name x = Some (create_schema_name empty_name_request))
        (rows empty_name_db)"
    by (simp add: empty_name_request_def empty_name_db_def empty_name_product_def)
  note t = schema_name_unique_invariant[OF r, of empty_name_request 20 20 20]
  from t have d: "distinct (map schema_name (rows empty_name_db))" by blast
  from t l have e: "\<exists>e. create_data_product empty_name_db empty_name_request 20 20 20
              = (empty_name_db, Inl e)" by blast
  have v: "create_data_product empty_name_db empty_name_request 20 20 20
       = (empty_name_db, Inl IntegrityError)"
    by (simp add: create_data_product_def get_data_product_by_schema_name_def session_insert_def
      new_data_product_def violates_not_null_def violates_unique_def Let_def
      empty_name_request_def empty_name_product_def empty_name_db_def)
  from r d l e v show ?thesis by blast
qed

end
